theory Spec2Isabelle
  imports Complex_Main "HOL-Library.Sublist"
begin

section \<open>Data model\<close>

text \<open>
  The task dependency graph of the front end. Identifiers are JavaScript strings
  (sequences of code units, modelled as \<^typ>\<open>string\<close>); coordinates are JavaScript numbers
  that the code only stores, compares with \<open>null\<close> and shifts by a constant, modelled as
  \<^typ>\<open>real\<close>; a nullable field is an \<^typ>\<open>'a option\<close> with \<open>None\<close> for \<open>null\<close>.
\<close>

text \<open>
  The argument of the \<open>createDependency\<close> mutation,
  \<^verbatim>\<open>{ task_id: string; depends_on_task_id: string }\<close>, and the \<open>TaskDependency\<close> record of
  \<open>shared/types\<close>, which adds the identifier of the stored dependency.
\<close>

record dependency_data =
  task_id :: string
  depends_on_task_id :: string

record TaskDependency = dependency_data +
  dep_id :: string

text \<open>The fields of \<open>TaskWithAttemptStatus\<close> that the DAG view reads.\<close>

record TaskWithAttemptStatus =
  task_ident :: string
  title :: string
  description :: "string option"
  status :: string
  created_at :: string
  dag_position_x :: "real option"
  dag_position_y :: "real option"

section \<open>Edge identifiers (useTaskDependencies.ts)\<close>

text \<open>\<^verbatim>\<open>String.prototype.startsWith\<close> and \<^verbatim>\<open>String.prototype.slice\<close> with one argument
  that is a non-negative index.\<close>

definition startsWith :: "string \<Rightarrow> string \<Rightarrow> bool" where
  "startsWith s p = (take (length p) s = p)"

definition slice_from :: "string \<Rightarrow> nat \<Rightarrow> string" where
  "slice_from s n = drop n s"

definition getDependencyIdFromEdgeId :: "string \<Rightarrow> string option" where
  "getDependencyIdFromEdgeId edgeId =
     (if startsWith edgeId ''dep-'' then Some (slice_from edgeId 4) else None)"

definition createEdgeIdFromDependency :: "TaskDependency \<Rightarrow> string" where
  "createEdgeIdFromDependency dependency = ''dep-'' @ dep_id dependency"

section \<open>React Flow elements and the gestures of the DAG view\<close>

text \<open>
  A React Flow node and edge. Of an edge the view sets \<open>id\<close>, \<open>source\<close>, \<open>target\<close> and
  \<open>type\<close>; its arrow marker and its \<open>onDelete\<close> callback are rendering attributes, the
  same for every edge, and are left out. The node payload is a type parameter.
\<close>

record 'd Node =
  node_id :: string
  node_type :: string
  position :: "real \<times> real"
  node_data :: 'd

record Edge =
  edge_id :: string
  source :: string
  target :: string
  edge_type :: string

text \<open>\<open>createEdges\<close>: one edge per dependency, from the prerequisite to the dependent.\<close>

definition createEdges :: "TaskDependency list \<Rightarrow> Edge list" where
  "createEdges dependencies =
     map (\<lambda>dep. \<lparr>edge_id = createEdgeIdFromDependency dep,
                  source = depends_on_task_id dep,
                  target = task_id dep,
                  edge_type = ''dependency''\<rparr>) dependencies"

text \<open>The directed graph over task ids that a list of edges stands for.\<close>

definition edge_graph :: "Edge list \<Rightarrow> (string \<times> string) set" where
  "edge_graph edges = set (map (\<lambda>e. (source e, target e)) edges)"

text \<open>
  The body of \<open>updateTask.mutate\<close>'s \<open>data\<close> argument, and the three mutations a gesture
  can request. A handler is modelled by the list of \<open>mutate\<close> calls it makes, in order.
\<close>

record UpdateTask =
  upd_title :: "string option"
  upd_description :: "string option"
  upd_status :: "string option"
  parent_workspace_id :: "string option"
  image_ids :: "string list option"
  upd_dag_position_x :: "real option"
  upd_dag_position_y :: "real option"
  clear_dag_position :: bool

datatype mutation_call =
    UpdateTask_mutate string UpdateTask
  | CreateDependency_mutate dependency_data
  | DeleteDependency_mutate string

text \<open>A React Flow \<open>Connection\<close>: both ends are \<^verbatim>\<open>string | null\<close>.\<close>

record Connection =
  connection_source :: "string option"
  connection_target :: "string option"

text \<open>JavaScript truthiness of a \<^verbatim>\<open>string | null\<close>: \<open>null\<close> and the empty string are falsy
  (\<open>falsy v\<close> is \<open>!v\<close>).\<close>

definition truthy :: "string option \<Rightarrow> bool" where
  "truthy v = (case v of None \<Rightarrow> False | Some s \<Rightarrow> s \<noteq> [])"

text \<open>\<open>onConnect\<close> (the connect gesture between two handles).\<close>

definition falsy :: "string option \<Rightarrow> bool" where
  "falsy v = (case v of None \<Rightarrow> True | Some s \<Rightarrow> s = [])"

definition onConnect :: "Connection \<Rightarrow> mutation_call list" where
  "onConnect connection =
     (if falsy (connection_source connection) \<or> falsy (connection_target connection) then []
      else case (connection_source connection, connection_target connection) of
        (Some src, Some tgt) \<Rightarrow>
          [CreateDependency_mutate \<lparr>task_id = tgt, depends_on_task_id = src\<rparr>]
      | _ \<Rightarrow> [])"

text \<open>
  The classification of the tasks (the \<open>useMemo\<close> computing \<open>dagTasks\<close> and \<open>poolTasks\<close>):
  a \<open>forEach\<close> over the tasks that pushes each task on one of two arrays.
\<close>

fun classify ::
  "TaskWithAttemptStatus list \<Rightarrow> TaskWithAttemptStatus list \<times> TaskWithAttemptStatus list \<Rightarrow>
   TaskWithAttemptStatus list \<times> TaskWithAttemptStatus list" where
  "classify [] (inDag, inPool) = (inDag, inPool)"
| "classify (task # rest) (inDag, inPool) =
     (if dag_position_x task \<noteq> None \<and> dag_position_y task \<noteq> None
      then classify rest (inDag @ [task], inPool)
      else classify rest (inDag, inPool @ [task]))"

definition dagTasks :: "TaskWithAttemptStatus list \<Rightarrow> TaskWithAttemptStatus list" where
  "dagTasks tasks = fst (classify tasks ([], []))"

definition poolTasks :: "TaskWithAttemptStatus list \<Rightarrow> TaskWithAttemptStatus list" where
  "poolTasks tasks = snd (classify tasks ([], []))"

text \<open>
  \<open>handleDrop\<close>: a task card of the sidebar is dropped on the graph area. \<open>taskId\<close> is
  what \<open>dataTransfer.getData\<close> returns (the empty string when the drag carries no task),
  \<open>pool\<close> the current \<open>poolTasks\<close>, \<open>flow_position\<close> the result of
  \<open>screenToFlowPosition\<close>, and \<open>targetNodeId\<close> the \<open>data-id\<close> attribute of the element under
  the pointer, if any.
\<close>

definition handleDrop ::
  "string \<Rightarrow> TaskWithAttemptStatus list \<Rightarrow> real \<times> real \<Rightarrow> string option \<Rightarrow> mutation_call list" where
  "handleDrop taskId pool flow_position targetNodeId =
     (if taskId = [] then []
      else case find (\<lambda>t. task_ident t = taskId) pool of
        None \<Rightarrow> []
      | Some draggedTask \<Rightarrow>
          UpdateTask_mutate taskId
            \<lparr>upd_title = None, upd_description = None, upd_status = None,
             parent_workspace_id = None, image_ids = None,
             upd_dag_position_x = Some (fst flow_position),
             upd_dag_position_y = Some (snd flow_position),
             clear_dag_position = False\<rparr>
          # (if truthy targetNodeId \<and> targetNodeId \<noteq> Some taskId
             then (case targetNodeId of
                     Some nodeId \<Rightarrow>
                       [CreateDependency_mutate \<lparr>task_id = taskId, depends_on_task_id = nodeId\<rparr>]
                   | None \<Rightarrow> [])
             else []))"

text \<open>
  \<open>handleNodeDragStop\<close>: a node of the graph is released; \<open>overSidebar\<close> is the value of
  \<open>isDraggingOverSidebarRef.current\<close>. Resetting the drag flag afterwards touches no task
  and no dependency and is left out.
\<close>

definition handleNodeDragStop :: "bool \<Rightarrow> 'd Node \<Rightarrow> mutation_call list" where
  "handleNodeDragStop overSidebar node =
     (if overSidebar
      then [UpdateTask_mutate (node_id node)
              \<lparr>upd_title = None, upd_description = None, upd_status = None,
               parent_workspace_id = None, image_ids = None,
               upd_dag_position_x = None, upd_dag_position_y = None,
               clear_dag_position = True\<rparr>]
      else [])"

section \<open>Layout (dagLayout.ts)\<close>

definition NODE_WIDTH :: real where
  "NODE_WIDTH = 280"

definition NODE_HEIGHT :: real where
  "NODE_HEIGHT = 100"

datatype Direction = TB | BT | LR | RL

record LayoutOptions =
  direction :: "Direction option"
  nodeSpacing :: "real option"
  rankSpacing :: "real option"

text \<open>
  What \<open>getLayoutedElements\<close> hands to the dagre library: the graph label of \<open>setGraph\<close>,
  and its \<open>setNode\<close> and \<open>setEdge\<close> calls in order. The library is not part of the
  repository; its \<open>layout\<close> followed by the \<open>node\<close> lookups is a parameter of the model,
  a function from this input to the centre coordinates of each node id (\<open>None\<close> where
  \<open>dagreGraph.node\<close> returns \<open>undefined\<close>).
\<close>

record GraphLabel =
  rankdir :: Direction
  nodesep :: real
  ranksep :: real
  marginx :: real
  marginy :: real

record NodeLabel =
  width :: real
  height :: real

record DagreGraph =
  graph_label :: GraphLabel
  setNode_calls :: "(string \<times> NodeLabel) list"
  setEdge_calls :: "(string \<times> string) list"

type_synonym dagre_layout = "DagreGraph \<Rightarrow> string \<Rightarrow> (real \<times> real) option"

definition setNode :: "string \<Rightarrow> NodeLabel \<Rightarrow> DagreGraph \<Rightarrow> DagreGraph" where
  "setNode v label g = g\<lparr>setNode_calls := setNode_calls g @ [(v, label)]\<rparr>"

definition setEdge :: "string \<Rightarrow> string \<Rightarrow> DagreGraph \<Rightarrow> DagreGraph" where
  "setEdge v w g = g\<lparr>setEdge_calls := setEdge_calls g @ [(v, w)]\<rparr>"

definition buildDagreGraph :: "'d Node list \<Rightarrow> Edge list \<Rightarrow> LayoutOptions \<Rightarrow> DagreGraph" where
  "buildDagreGraph nodes edges options =
     (let dir = (case direction options of None \<Rightarrow> TB | Some d \<Rightarrow> d);
          nsp = (case nodeSpacing options of None \<Rightarrow> 50 | Some n \<Rightarrow> n);
          rsp = (case rankSpacing options of None \<Rightarrow> 100 | Some r \<Rightarrow> r);
          g0 = \<lparr>graph_label = \<lparr>rankdir = dir, nodesep = nsp, ranksep = rsp,
                                marginx = 50, marginy = 50\<rparr>,
                setNode_calls = [], setEdge_calls = []\<rparr>;
          g1 = fold (\<lambda>node. setNode (node_id node) \<lparr>width = NODE_WIDTH, height = NODE_HEIGHT\<rparr>)
                 nodes g0
      in fold (\<lambda>edge. setEdge (source edge) (target edge)) edges g1)"

definition getLayoutedElements ::
  "dagre_layout \<Rightarrow> 'd Node list \<Rightarrow> Edge list \<Rightarrow> LayoutOptions \<Rightarrow> 'd Node list" where
  "getLayoutedElements layout nodes edges options =
     (let dagreGraph = layout (buildDagreGraph nodes edges options)
      in map (\<lambda>node. case dagreGraph (node_id node) of
                        None \<Rightarrow> node
                      | Some (cx, cy) \<Rightarrow>
                          node\<lparr>position := (cx - NODE_WIDTH / 2, cy - NODE_HEIGHT / 2)\<rparr>)
           nodes)"

section \<open>The persistence service\<close>

text \<open>
  The front end validates nothing itself: \<open>createDependency\<close> posts the request and the
  back end answers with the new row or with an error (status 409 for a conflict). The back
  end is part of the repository but not of the sources at hand, so the service is modelled
  from the specification.
\<close>

text \<open>
  Modelled from the spec: "following existing edges" (section 4.2), the step of the
  guard's search, missing from the sources: the heads of the edges that leave \<open>v\<close>.
\<close>

definition successors :: "('a \<times> 'a) list \<Rightarrow> 'a \<Rightarrow> 'a list" where
  "successors edges v = map snd (filter (\<lambda>e. fst e = v) edges)"

text \<open>
  Modelled from the spec: the reachability search of the Acyclicity Guard (section 4.2,
  "reachability search (breadth/depth-first) from \<open>to\<close> following existing edges"), whose
  implementation is missing. A depth-first search with a stack of pending nodes and the
  list of nodes already visited.
\<close>

function search :: "('a \<times> 'a) list \<Rightarrow> 'a list \<Rightarrow> 'a list \<Rightarrow> 'a list" where
  "search edges [] visited = visited"
| "search edges (v # pending) visited =
     (if v \<in> set visited then search edges pending visited
      else search edges (successors edges v @ pending) (v # visited))"
  by pat_completeness auto
termination
proof (relation "measures
    [\<lambda>(edges, pending, visited). card ((snd ` set edges \<union> set pending) - set visited),
     \<lambda>(edges, pending, visited). length pending]", goal_cases)
  case 1
  show ?case by simp
next
  case (2 edges v pending visited)
  then have "(snd ` set edges \<union> set (v # pending)) - set visited
             = (snd ` set edges \<union> set pending) - set visited"
    by auto
  then show ?case by simp
next
  case (3 edges v pending visited)
  have sub: "set (successors edges v) \<subseteq> snd ` set edges"
    by (auto simp: successors_def)
  have "(snd ` set edges \<union> set (successors edges v @ pending)) - set (v # visited)
        \<subset> (snd ` set edges \<union> set (v # pending)) - set visited"
    using 3 sub by auto
  moreover have "finite ((snd ` set edges \<union> set (v # pending)) - set visited)"
    by simp
  ultimately have
    "card ((snd ` set edges \<union> set (successors edges v @ pending)) - set (v # visited))
       < card ((snd ` set edges \<union> set (v # pending)) - set visited)"
    by (rule psubset_card_mono[rotated])
  then show ?case by simp
qed

text \<open>
  Modelled from the spec: the error kinds of a refused edge (section 7), which the sources
  do not declare.
\<close>

datatype rejection = SelfDependency | DuplicateEdge | CycleRejected

text \<open>
  Modelled from the spec: the Acyclicity Guard (section 4.2), missing from the sources.
  An edge \<open>(from, to)\<close> says that \<open>to\<close> depends on \<open>from\<close>. "Reject immediately if
  \<open>from == to\<close>. Reject if an edge with the same \<open>(from, to)\<close> already exists. Otherwise,
  accept iff there is no existing directed path from \<open>to\<close> to \<open>from\<close>."
\<close>

definition acyclicity_guard ::
  "('a \<times> 'a) list \<Rightarrow> 'a \<Rightarrow> 'a \<Rightarrow> rejection option" where
  "acyclicity_guard edges from to =
     (if from = to then Some SelfDependency
      else if (from, to) \<in> set edges then Some DuplicateEdge
      else if from \<in> set (search edges [to] []) then Some CycleRejected
      else None)"

text \<open>The \<open>ApiError\<close> that a failed request rejects with: the code reads \<open>status\<close> and
  \<open>message\<close>.\<close>

record ApiError =
  error_status :: nat
  error_message :: string

text \<open>Modelled from the spec: the names of the error kinds (section 7), as the message of
  the service's answer.\<close>

definition rejection_name :: "rejection \<Rightarrow> string" where
  "rejection_name r =
     (case r of SelfDependency \<Rightarrow> ''SelfDependency''
      | DuplicateEdge \<Rightarrow> ''DuplicateEdge''
      | CycleRejected \<Rightarrow> ''CycleRejected'')"

text \<open>The edges \<open>(from, to)\<close> of the stored dependencies: prerequisite first.\<close>

definition dependency_pairs :: "TaskDependency list \<Rightarrow> (string \<times> string) list" where
  "dependency_pairs store = map (\<lambda>d. (depends_on_task_id d, task_id d)) store"

text \<open>
  Modelled from the spec: \<open>createDependency(scopeId, fromTaskId, toTaskId) -> edgeId\<close> of
  the persistence service (section 6), missing from the sources: it "fails with Conflict
  when the pair already exists or would close a cycle", by the guard of section 4.2, and
  leaves its store unchanged then (section 4.1); otherwise it stores the new row. The
  identifier that the service gives the new row is the argument \<open>new_id\<close>. A conflict is
  the status 409 that \<open>createDependency\<close>'s \<open>onError\<close> tests for; the message carries the
  error kind.
\<close>

definition dependenciesApi_create ::
  "string \<Rightarrow> TaskDependency list \<Rightarrow> dependency_data \<Rightarrow>
   (ApiError + TaskDependency) \<times> TaskDependency list" where
  "dependenciesApi_create new_id store data =
     (case acyclicity_guard (dependency_pairs store) (depends_on_task_id data) (task_id data) of
        Some r \<Rightarrow> (Inl \<lparr>error_status = 409, error_message = rejection_name r\<rparr>, store)
      | None \<Rightarrow>
          (let dep = \<lparr>task_id = task_id data, depends_on_task_id = depends_on_task_id data,
                      dep_id = new_id\<rparr>
           in (Inr dep, store @ [dep])))"

text \<open>
  Modelled from the spec: \<open>deleteDependency(edgeId) -> ok\<close> of the persistence service
  (section 6), missing from the sources: "unconditional removal" (section 4.1).
\<close>

definition dependenciesApi_delete ::
  "TaskDependency list \<Rightarrow> string \<Rightarrow> (ApiError + unit) \<times> TaskDependency list" where
  "dependenciesApi_delete store dependencyId =
     (Inr (), filter (\<lambda>d. dep_id d \<noteq> dependencyId) store)"

text \<open>
  Modelled from the spec: \<open>updateTaskPosition(taskId, x, y | null) -> ok\<close> of the
  persistence service (section 6), missing from the sources, as is the \<open>useTaskMutations\<close>
  hook that calls it: the position of the task becomes the one of the request, "\<open>null\<close> for
  both clears placement"; the task's other fields and every dependency stay as they are
  (the transition "does not cascade-delete edges", section 4.4).
\<close>

definition tasksApi_update ::
  "TaskWithAttemptStatus list \<Rightarrow> string \<Rightarrow> UpdateTask \<Rightarrow> TaskWithAttemptStatus list" where
  "tasksApi_update store taskId data =
     map (\<lambda>t. if task_ident t = taskId
               then t\<lparr>dag_position_x := upd_dag_position_x data,
                      dag_position_y := upd_dag_position_y data\<rparr>
               else t) store"

section \<open>The session: the hook's state and the service's store\<close>

text \<open>
  \<open>remote_tasks\<close> and \<open>remote_deps\<close> are the rows of the persistence service;
  \<open>dependencies\<close> is \<open>query.data ?? []\<close> of \<open>useTaskDependencies\<close>, the only edge data the
  view holds (its edges are \<open>createEdges dependencies\<close>); \<open>alerts\<close> are the messages shown
  with \<open>window.alert\<close>; \<open>api_log\<close> lists the requests sent to the service.
\<close>

datatype api_request =
    Api_create dependency_data
  | Api_delete string
  | Api_getByProject
  | Api_updateTask string UpdateTask

record session =
  remote_tasks :: "TaskWithAttemptStatus list"
  remote_deps :: "TaskDependency list"
  dependencies :: "TaskDependency list"
  alerts :: "string list"
  api_log :: "api_request list"

text \<open>
  \<open>invalidateDependencies\<close>, for a project id that is set: the query is refetched with
  \<open>dependenciesApi.getByProject\<close>. The refetch is modelled as done at once: the hook then
  holds the rows of the store.
\<close>

definition invalidateDependencies :: "session \<Rightarrow> session" where
  "invalidateDependencies s =
     s\<lparr>dependencies := remote_deps s, api_log := api_log s @ [Api_getByProject]\<rparr>"

text \<open>The message of \<open>createDependency\<close>'s \<open>onError\<close>.\<close>

definition createDependency_onError :: "ApiError \<Rightarrow> string" where
  "createDependency_onError error =
     (if error_status error = 409
      then ''Cannot create dependency: This would create a circular dependency or the dependency already exists.''
      else ''Failed to create dependency: '' @ error_message error)"

text \<open>
  \<open>createDependency.mutate\<close>: \<open>mutationFn\<close> sends the request; \<open>onSuccess\<close> invalidates the
  query, \<open>onError\<close> alerts. There is no \<open>onMutate\<close>: nothing is applied before the answer.
  The service call is the parameter \<open>api_create\<close>, from the store and the request to the
  answer and the store afterwards.
\<close>

definition createDependency_mutate ::
  "(TaskDependency list \<Rightarrow> dependency_data \<Rightarrow> (ApiError + TaskDependency) \<times> TaskDependency list) \<Rightarrow>
   dependency_data \<Rightarrow> session \<Rightarrow> session" where
  "createDependency_mutate api_create data s =
     (let (response, store) = api_create (remote_deps s) data;
          s1 = s\<lparr>remote_deps := store, api_log := api_log s @ [Api_create data]\<rparr>
      in case response of
           Inr dep \<Rightarrow> invalidateDependencies s1
         | Inl error \<Rightarrow> s1\<lparr>alerts := alerts s1 @ [createDependency_onError error]\<rparr>)"

text \<open>\<open>deleteDependency.mutate\<close>, in the same way.\<close>

definition deleteDependency_mutate ::
  "(TaskDependency list \<Rightarrow> string \<Rightarrow> (ApiError + unit) \<times> TaskDependency list) \<Rightarrow>
   string \<Rightarrow> session \<Rightarrow> session" where
  "deleteDependency_mutate api_delete dependencyId s =
     (let (response, store) = api_delete (remote_deps s) dependencyId;
          s1 = s\<lparr>remote_deps := store, api_log := api_log s @ [Api_delete dependencyId]\<rparr>
      in case response of
           Inr ok \<Rightarrow> invalidateDependencies s1
         | Inl error \<Rightarrow>
             s1\<lparr>alerts := alerts s1 @ [''Failed to delete dependency: '' @ error_message error]\<rparr>)"

text \<open>
  Modelled from the spec: \<open>updateTask.mutate\<close> of the \<open>useTaskMutations\<close> hook, missing
  from the sources: the request goes to the service, which updates the task.
\<close>

definition updateTask_mutate :: "string \<Rightarrow> UpdateTask \<Rightarrow> session \<Rightarrow> session" where
  "updateTask_mutate taskId data s =
     s\<lparr>remote_tasks := tasksApi_update (remote_tasks s) taskId data,
       api_log := api_log s @ [Api_updateTask taskId data]\<rparr>"

text \<open>One \<open>mutate\<close> call against the modelled service, and a sequence of them; each call
  comes with the identifier the service would give a row it creates.\<close>

definition perform :: "string \<times> mutation_call \<Rightarrow> session \<Rightarrow> session" where
  "perform request s =
     (case snd request of
        CreateDependency_mutate data \<Rightarrow>
          createDependency_mutate (dependenciesApi_create (fst request)) data s
      | DeleteDependency_mutate dependencyId \<Rightarrow>
          deleteDependency_mutate dependenciesApi_delete dependencyId s
      | UpdateTask_mutate taskId data \<Rightarrow> updateTask_mutate taskId data s)"

definition perform_all :: "(string \<times> mutation_call) list \<Rightarrow> session \<Rightarrow> session" where
  "perform_all requests s = fold perform requests s"

definition initial_session :: session where
  "initial_session =
     \<lparr>remote_tasks = [], remote_deps = [], dependencies = [], alerts = [], api_log = []\<rparr>"

text \<open>The invariant of the session: the stored dependencies and the ones the hook holds
  are acyclic.\<close>

definition stores_acyclic :: "session \<Rightarrow> bool" where
  "stores_acyclic s \<longleftrightarrow>
     acyclic (set (dependency_pairs (remote_deps s))) \<and>
     acyclic (set (dependency_pairs (dependencies s)))"

section \<open>Edge identifiers: round trip\<close>

lemma startsWith_prefix: "startsWith s p = prefix p s"
  unfolding startsWith_def
proof
  assume "take (length p) s = p"
  then have "s = p @ drop (length p) s"
    by (metis append_take_drop_id)
  then show "prefix p s"
    by (metis prefixI)
next
  assume "prefix p s"
  then obtain r where "s = p @ r"
    by (auto simp: prefix_def)
  then show "take (length p) s = p"
    by simp
qed

text \<open>
  C10. Converting a dependency to its edge id and parsing the edge id back gives the
  dependency's id, and a string of which \<open>dep-\<close> is not a prefix parses to \<open>null\<close>.
\<close>

theorem edge_id_round_trip:
  "getDependencyIdFromEdgeId (createEdgeIdFromDependency d) = Some (dep_id d) \<and>
   (\<not> prefix ''dep-'' s \<longrightarrow> getDependencyIdFromEdgeId s = None)"
  by (simp add: getDependencyIdFromEdgeId_def createEdgeIdFromDependency_def
      startsWith_prefix slice_from_def)

theorem edge_id_round_trip_witness:
  "getDependencyIdFromEdgeId
     (createEdgeIdFromDependency \<lparr>task_id = ''t2'', depends_on_task_id = ''t1'', dep_id = ''d7''\<rparr>)
     = Some ''d7'' \<and>
   \<not> prefix ''dep-'' ''edge-9'' \<and> getDependencyIdFromEdgeId ''edge-9'' = None"
  using edge_id_round_trip
    [of "\<lparr>task_id = ''t2'', depends_on_task_id = ''t1'', dep_id = ''d7''\<rparr>" "''edge-9''"]
  by (simp add: prefix_def)

section \<open>Acyclicity of the dependency graph\<close>

lemma set_successors: "set (successors edges v) = set edges `` {v}"
  by (auto simp: successors_def Image_def intro: rev_image_eqI)

lemma search_visited: "set visited \<subseteq> set (search edges pending visited)"
  by (induction edges pending visited rule: search.induct) auto

lemma search_pending: "set pending \<subseteq> set (search edges pending visited)"
proof (induction edges pending visited rule: search.induct)
  case (1 edges visited)
  then show ?case by simp
next
  case (2 edges v pending visited)
  show ?case
  proof (cases "v \<in> set visited")
    case True
    with 2 search_visited[of visited edges pending] show ?thesis by auto
  next
    case False
    with 2 search_visited[of "v # visited" edges "successors edges v @ pending"]
    show ?thesis by auto
  qed
qed

lemma search_closed:
  "set edges `` set visited \<subseteq> set visited \<union> set pending \<Longrightarrow>
   set edges `` set (search edges pending visited) \<subseteq> set (search edges pending visited)"
proof (induction edges pending visited rule: search.induct)
  case (1 edges visited)
  then show ?case by simp
next
  case (2 edges v pending visited)
  show ?case
  proof (cases "v \<in> set visited")
    case True
    with 2 show ?thesis by auto
  next
    case False
    have "set edges `` set (v # visited)
            \<subseteq> set (v # visited) \<union> set (successors edges v @ pending)"
      using "2.prems" by (auto simp: set_successors)
    with 2 False show ?thesis by simp
  qed
qed

lemma search_sound:
  "set (search edges pending visited) \<subseteq> set visited \<union> (set edges)\<^sup>* `` set pending"
proof (induction edges pending visited rule: search.induct)
  case (1 edges visited)
  then show ?case by simp
next
  case (2 edges v pending visited)
  show ?case
  proof (cases "v \<in> set visited")
    case True
    with 2 show ?thesis by auto
  next
    case False
    have eq: "search edges (v # pending) visited
              = search edges (successors edges v @ pending) (v # visited)"
      using False by simp
    have ih: "set (search edges (successors edges v @ pending) (v # visited))
       \<subseteq> set (v # visited) \<union> (set edges)\<^sup>* `` set (successors edges v @ pending)"
      using "2.IH"(2)[OF False] .
    have "(set edges)\<^sup>* `` set (successors edges v) \<subseteq> (set edges)\<^sup>* `` {v}"
      by (auto simp: set_successors intro: converse_rtrancl_into_rtrancl)
    then have step: "(set edges)\<^sup>* `` set (successors edges v @ pending)
        \<subseteq> (set edges)\<^sup>* `` set (v # pending)"
      by auto
    have self: "v \<in> (set edges)\<^sup>* `` set (v # pending)"
      by auto
    show ?thesis
      unfolding eq using ih step self by (simp only: set_simps) blast
  qed
qed

lemma closed_rtrancl:
  assumes "r `` X \<subseteq> X" and "(a, b) \<in> r\<^sup>*" and "a \<in> X"
  shows "b \<in> X"
  using assms(2,3,1) by (induction rule: rtrancl_induct) auto

lemma search_reachable: "b \<in> set (search edges [a] []) \<longleftrightarrow> (a, b) \<in> (set edges)\<^sup>*"
proof
  assume "b \<in> set (search edges [a] [])"
  then show "(a, b) \<in> (set edges)\<^sup>*"
    using search_sound[of edges "[a]" "[]"] by auto
next
  assume r: "(a, b) \<in> (set edges)\<^sup>*"
  have "set edges `` set (search edges [a] []) \<subseteq> set (search edges [a] [])"
    by (rule search_closed) simp
  moreover have "a \<in> set (search edges [a] [])"
    using search_pending[of "[a]" edges "[]"] by simp
  ultimately show "b \<in> set (search edges [a] [])"
    using r closed_rtrancl by metis
qed

lemma guard_accepts_iff:
  "acyclicity_guard edges from to = None \<longleftrightarrow>
     (from, to) \<notin> set edges \<and> (to, from) \<notin> (set edges)\<^sup>*"
  by (auto simp: acyclicity_guard_def search_reachable simp del: search.simps)

lemma guard_keeps_acyclic:
  assumes "acyclic (set edges)" and "acyclicity_guard edges from to = None"
  shows "acyclic (set (edges @ [(from, to)]))"
  using assms by (simp add: guard_accepts_iff acyclic_insert)

lemma edge_graph_createEdges:
  "edge_graph (createEdges deps) = set (dependency_pairs deps)"
  by (simp add: edge_graph_def createEdges_def dependency_pairs_def comp_def)

lemma create_refused:
  assumes "acyclicity_guard (dependency_pairs store) (depends_on_task_id data) (task_id data) = Some r"
  shows "dependenciesApi_create new_id store data
           = (Inl \<lparr>error_status = 409, error_message = rejection_name r\<rparr>, store)"
  using assms by (simp add: dependenciesApi_create_def)

lemma create_accepted:
  assumes "acyclicity_guard (dependency_pairs store) (depends_on_task_id data) (task_id data) = None"
  shows "dependenciesApi_create new_id store data
           = (Inr \<lparr>task_id = task_id data, depends_on_task_id = depends_on_task_id data,
                    dep_id = new_id\<rparr>,
              store @ [\<lparr>task_id = task_id data, depends_on_task_id = depends_on_task_id data,
                    dep_id = new_id\<rparr>])"
  using assms by (simp add: dependenciesApi_create_def Let_def)

lemma create_store_acyclic:
  assumes "acyclic (set (dependency_pairs store))"
  shows "acyclic (set (dependency_pairs (snd (dependenciesApi_create new_id store data))))"
proof (cases "acyclicity_guard (dependency_pairs store) (depends_on_task_id data) (task_id data)")
  case None
  from guard_keeps_acyclic[OF assms None] show ?thesis
    by (simp add: create_accepted[OF None] dependency_pairs_def)
next
  case (Some r)
  with assms show ?thesis by (simp add: create_refused)
qed

lemma perform_create_cases:
  "(acyclicity_guard (dependency_pairs (remote_deps s)) (depends_on_task_id data) (task_id data) \<noteq> None \<and>
    dependencies (perform (nid, CreateDependency_mutate data) s) = dependencies s \<and>
    remote_deps (perform (nid, CreateDependency_mutate data) s) = remote_deps s) \<or>
   (acyclicity_guard (dependency_pairs (remote_deps s)) (depends_on_task_id data) (task_id data) = None \<and>
    dependencies (perform (nid, CreateDependency_mutate data) s)
       = remote_deps s @ [\<lparr>task_id = task_id data, depends_on_task_id = depends_on_task_id data, dep_id = nid\<rparr>] \<and>
    remote_deps (perform (nid, CreateDependency_mutate data) s)
       = remote_deps s @ [\<lparr>task_id = task_id data, depends_on_task_id = depends_on_task_id data, dep_id = nid\<rparr>])"
proof (cases "acyclicity_guard (dependency_pairs (remote_deps s)) (depends_on_task_id data) (task_id data)")
  case None
  then show ?thesis
    by (simp add: perform_def createDependency_mutate_def create_accepted invalidateDependencies_def)
next
  case (Some r)
  then show ?thesis
    by (simp add: perform_def createDependency_mutate_def create_refused)
qed

lemma perform_acyclic:
  assumes "stores_acyclic s"
  shows "stores_acyclic (perform request s)"
proof (cases "snd request")
  case (UpdateTask_mutate taskId data)
  with assms show ?thesis
    by (simp add: perform_def updateTask_mutate_def stores_acyclic_def)
next
  case (CreateDependency_mutate data)
  then have req: "request = (fst request, CreateDependency_mutate data)"
    by (metis prod.collapse)
  from assms have a: "acyclic (set (dependency_pairs (remote_deps s)))"
    and b: "acyclic (set (dependency_pairs (dependencies s)))"
    by (simp_all add: stores_acyclic_def)
  show ?thesis
  proof (cases "acyclicity_guard (dependency_pairs (remote_deps s)) (depends_on_task_id data) (task_id data)")
    case None
    from guard_keeps_acyclic[OF a None] perform_create_cases[of s data "fst request"] None req
    show ?thesis
      by (auto simp: stores_acyclic_def dependency_pairs_def)
  next
    case (Some r)
    with perform_create_cases[of s data "fst request"] req a b
    show ?thesis
      by (auto simp: stores_acyclic_def)
  qed
next
  case (DeleteDependency_mutate dependencyId)
  have "set (dependency_pairs (filter P (remote_deps s))) \<subseteq> set (dependency_pairs (remote_deps s))" for P
    by (auto simp: dependency_pairs_def)
  then have "acyclic (set (dependency_pairs (filter P (remote_deps s))))" for P
    using assms acyclic_subset unfolding stores_acyclic_def by blast
  with DeleteDependency_mutate show ?thesis
    by (simp add: perform_def deleteDependency_mutate_def dependenciesApi_delete_def
        invalidateDependencies_def stores_acyclic_def)
qed

lemma perform_all_acyclic:
  "stores_acyclic s \<Longrightarrow> stores_acyclic (perform_all requests s)"
  unfolding perform_all_def
  by (induction requests arbitrary: s) (simp_all add: perform_acyclic)

lemma perform_all_Suc:
  assumes "k < length requests"
  shows "perform_all (take (Suc k) requests) s
           = perform (requests ! k) (perform_all (take k requests) s)"
  using assms by (simp add: perform_all_def take_Suc_conv_app_nth)


text \<open>
  C1. From a state whose stored dependencies are acyclic, after every prefix of every
  sequence of mutation requests (additions, deletions, position updates) the edges of the
  view, \<open>createEdges dependencies\<close> read as the graph with an edge from
  \<open>depends_on_task_id\<close> to \<open>task_id\<close>, are acyclic; and an addition changes the edges only
  when the guard accepts it: then they are the stored edges with the new one, otherwise
  they are as before.
\<close>

theorem dependency_graph_stays_acyclic:
  assumes "acyclic (set (dependency_pairs (remote_deps s)))"
    and "acyclic (edge_graph (createEdges (dependencies s)))"
  shows "(\<forall>k \<le> length requests.
            acyclic (edge_graph (createEdges (dependencies (perform_all (take k requests) s))))) \<and>
         (\<forall>k < length requests. \<forall>data.
            snd (requests ! k) = CreateDependency_mutate data \<longrightarrow>
            (let before = perform_all (take k requests) s;
                 after = perform_all (take (Suc k) requests) s;
                 new = \<lparr>task_id = task_id data, depends_on_task_id = depends_on_task_id data,
                        dep_id = fst (requests ! k)\<rparr>
             in if acyclicity_guard (dependency_pairs (remote_deps before))
                     (depends_on_task_id data) (task_id data) = None
                then createEdges (dependencies after) = createEdges (remote_deps before @ [new])
                else createEdges (dependencies after) = createEdges (dependencies before)))"
proof (intro conjI allI impI)
  fix k
  assume "k \<le> length requests"
  from assms have "stores_acyclic s"
    by (simp add: stores_acyclic_def edge_graph_createEdges)
  then have "stores_acyclic (perform_all (take k requests) s)"
    by (rule perform_all_acyclic)
  then show "acyclic (edge_graph (createEdges (dependencies (perform_all (take k requests) s))))"
    by (simp add: stores_acyclic_def edge_graph_createEdges)
next
  fix k data
  assume k: "k < length requests" and c: "snd (requests ! k) = CreateDependency_mutate data"
  define before where "before = perform_all (take k requests) s"
  have req: "requests ! k = (fst (requests ! k), CreateDependency_mutate data)"
    using c by (metis prod.collapse)
  have after: "perform_all (take (Suc k) requests) s
                 = perform (fst (requests ! k), CreateDependency_mutate data) before"
    using perform_all_Suc[OF k, of s] req by (simp add: before_def)
  show "let before = perform_all (take k requests) s;
            after = perform_all (take (Suc k) requests) s;
            new = \<lparr>task_id = task_id data, depends_on_task_id = depends_on_task_id data,
                   dep_id = fst (requests ! k)\<rparr>
        in if acyclicity_guard (dependency_pairs (remote_deps before))
                (depends_on_task_id data) (task_id data) = None
           then createEdges (dependencies after) = createEdges (remote_deps before @ [new])
           else createEdges (dependencies after) = createEdges (dependencies before)"
    unfolding Let_def after before_def[symmetric]
    using perform_create_cases[of before data "fst (requests ! k)"] by auto
qed

theorem dependency_graph_stays_acyclic_witness:
  "acyclic (set (dependency_pairs (remote_deps initial_session))) \<and>
   acyclic (edge_graph (createEdges (dependencies initial_session))) \<and>
   acyclic (edge_graph (createEdges (dependencies (perform_all
     [(''d1'', CreateDependency_mutate \<lparr>task_id = ''B'', depends_on_task_id = ''A''\<rparr>),
      (''d2'', CreateDependency_mutate \<lparr>task_id = ''C'', depends_on_task_id = ''B''\<rparr>),
      (''d3'', CreateDependency_mutate \<lparr>task_id = ''A'', depends_on_task_id = ''C''\<rparr>)]
     initial_session)))) \<and>
   map (\<lambda>e. (source e, target e)) (createEdges (dependencies (perform_all
     [(''d1'', CreateDependency_mutate \<lparr>task_id = ''B'', depends_on_task_id = ''A''\<rparr>),
      (''d2'', CreateDependency_mutate \<lparr>task_id = ''C'', depends_on_task_id = ''B''\<rparr>),
      (''d3'', CreateDependency_mutate \<lparr>task_id = ''A'', depends_on_task_id = ''C''\<rparr>)]
     initial_session))) = [(''A'', ''B''), (''B'', ''C'')]"
proof -
  let ?reqs = "[(''d1'', CreateDependency_mutate \<lparr>task_id = ''B'', depends_on_task_id = ''A''\<rparr>),
      (''d2'', CreateDependency_mutate \<lparr>task_id = ''C'', depends_on_task_id = ''B''\<rparr>),
      (''d3'', CreateDependency_mutate \<lparr>task_id = ''A'', depends_on_task_id = ''C''\<rparr>)]"
  have h1: "acyclic (set (dependency_pairs (remote_deps initial_session)))"
    by (simp add: initial_session_def dependency_pairs_def acyclic_def)
  have h2: "acyclic (edge_graph (createEdges (dependencies initial_session)))"
    by (simp add: initial_session_def edge_graph_def createEdges_def acyclic_def)
  from dependency_graph_stays_acyclic[OF h1 h2, of ?reqs]
  have "\<forall>k \<le> length ?reqs.
          acyclic (edge_graph (createEdges (dependencies (perform_all (take k ?reqs) initial_session))))"
    by (rule conjunct1)
  then have "acyclic (edge_graph (createEdges (dependencies (perform_all (take (length ?reqs) ?reqs) initial_session))))"
    by blast
  then have h3: "acyclic (edge_graph (createEdges (dependencies (perform_all ?reqs initial_session))))"
    by simp
  have h4: "map (\<lambda>e. (source e, target e)) (createEdges (dependencies (perform_all ?reqs initial_session)))
       = [(''A'', ''B''), (''B'', ''C'')]"
    by (simp add: perform_all_def perform_def createDependency_mutate_def
        dependenciesApi_create_def acyclicity_guard_def dependency_pairs_def successors_def
        invalidateDependencies_def initial_session_def createEdges_def Let_def)
  from h1 h2 h3 h4 show ?thesis by blast
qed

section \<open>Rejected additions\<close>




section \<open>Self-dependencies\<close>

text \<open>
  C3. A connect gesture from a task to itself is not refused by the view: \<open>onConnect\<close>
  requests the creation and the request is sent to the service. The drop gesture, for
  comparison, requests no creation when the target is the dropped task itself.
\<close>

theorem onConnect_self_edge_reaches_service:
  "onConnect \<lparr>connection_source = Some ''A'', connection_target = Some ''A''\<rparr>
     = [CreateDependency_mutate \<lparr>task_id = ''A'', depends_on_task_id = ''A''\<rparr>] \<and>
   api_log (perform_all
      (map (Pair ''d1'')
         (onConnect \<lparr>connection_source = Some ''A'', connection_target = Some ''A''\<rparr>))
      initial_session)
     = [Api_create \<lparr>task_id = ''A'', depends_on_task_id = ''A''\<rparr>] \<and>
   handleDrop ''A''
      [\<lparr>task_ident = ''A'', title = ''a'', description = None, status = ''todo'',
        created_at = ''2025'', dag_position_x = None, dag_position_y = None\<rparr>]
      (0, 0) (Some ''A'')
     = [UpdateTask_mutate ''A''
          \<lparr>upd_title = None, upd_description = None, upd_status = None,
           parent_workspace_id = None, image_ids = None,
           upd_dag_position_x = Some 0, upd_dag_position_y = Some 0,
           clear_dag_position = False\<rparr>]"
  by (simp add: onConnect_def falsy_def handleDrop_def truthy_def perform_all_def perform_def
      createDependency_mutate_def dependenciesApi_create_def acyclicity_guard_def
      initial_session_def)

section \<open>Placed and pooled tasks\<close>

lemma classify_filter:
  "classify tasks (inDag, inPool) =
     (inDag @ filter (\<lambda>t. dag_position_x t \<noteq> None \<and> dag_position_y t \<noteq> None) tasks,
      inPool @ filter (\<lambda>t. \<not> (dag_position_x t \<noteq> None \<and> dag_position_y t \<noteq> None)) tasks)"
  by (induction tasks arbitrary: inDag inPool) simp_all

lemma dagTasks_filter:
  "dagTasks tasks = filter (\<lambda>t. dag_position_x t \<noteq> None \<and> dag_position_y t \<noteq> None) tasks"
  by (simp add: dagTasks_def classify_filter)

lemma poolTasks_filter:
  "poolTasks tasks
     = filter (\<lambda>t. \<not> (dag_position_x t \<noteq> None \<and> dag_position_y t \<noteq> None)) tasks"
  by (simp add: poolTasks_def classify_filter)

text \<open>
  C7. The placed tasks are exactly the tasks whose stored position is present (both
  coordinates are not \<open>null\<close>), the pooled tasks are exactly the others, each list in the
  order of the tasks: the classification is a function of the stored positions alone.
\<close>

theorem placed_iff_position_present:
  "dagTasks tasks = filter (\<lambda>t. dag_position_x t \<noteq> None \<and> dag_position_y t \<noteq> None) tasks \<and>
   poolTasks tasks = filter (\<lambda>t. \<not> (dag_position_x t \<noteq> None \<and> dag_position_y t \<noteq> None)) tasks"
  by (simp add: dagTasks_filter poolTasks_filter)

theorem placed_iff_position_present_witness:
  "map task_ident (dagTasks
     [\<lparr>task_ident = ''X'', title = ''x'', description = None, status = ''todo'',
       created_at = ''2025'', dag_position_x = Some 10, dag_position_y = Some 10\<rparr>,
      \<lparr>task_ident = ''Y'', title = ''y'', description = None, status = ''todo'',
       created_at = ''2025'', dag_position_x = None, dag_position_y = None\<rparr>,
      \<lparr>task_ident = ''Z'', title = ''z'', description = None, status = ''done'',
       created_at = ''2025'', dag_position_x = Some 5, dag_position_y = None\<rparr>]) = [''X''] \<and>
   map task_ident (poolTasks
     [\<lparr>task_ident = ''X'', title = ''x'', description = None, status = ''todo'',
       created_at = ''2025'', dag_position_x = Some 10, dag_position_y = Some 10\<rparr>,
      \<lparr>task_ident = ''Y'', title = ''y'', description = None, status = ''todo'',
       created_at = ''2025'', dag_position_x = None, dag_position_y = None\<rparr>,
      \<lparr>task_ident = ''Z'', title = ''z'', description = None, status = ''done'',
       created_at = ''2025'', dag_position_x = Some 5, dag_position_y = None\<rparr>])
     = [''Y'', ''Z'']"
  using placed_iff_position_present
    [of "[\<lparr>task_ident = ''X'', title = ''x'', description = None, status = ''todo'',
       created_at = ''2025'', dag_position_x = Some 10, dag_position_y = Some 10\<rparr>,
      \<lparr>task_ident = ''Y'', title = ''y'', description = None, status = ''todo'',
       created_at = ''2025'', dag_position_x = None, dag_position_y = None\<rparr>,
      \<lparr>task_ident = ''Z'', title = ''z'', description = None, status = ''done'',
       created_at = ''2025'', dag_position_x = Some 5, dag_position_y = None\<rparr>]"]
  by simp

lemma tasksApi_clear:
  "tasksApi_update store taskId
      \<lparr>upd_title = a, upd_description = b, upd_status = c, parent_workspace_id = d,
       image_ids = e, upd_dag_position_x = None, upd_dag_position_y = None,
       clear_dag_position = f\<rparr>
    = map (\<lambda>u. if task_ident u = taskId
                then u\<lparr>dag_position_x := None, dag_position_y := None\<rparr> else u) store"
  by (simp add: tasksApi_update_def)

text \<open>
  C8. A placed task is dragged onto the sidebar. The only request is the update that
  clears its position; afterwards the stored dependencies and the edges of the view are
  as before, the tasks differ from the old ones only in the position of the tasks with
  that id, which is cleared, the task is classified as pooled and no task with its id is
  classified as placed.
\<close>

theorem clear_position_keeps_edges:
  assumes "t \<in> set (dagTasks (remote_tasks s))"
    and "node_id node = task_ident t"
  shows "remote_deps (perform_all (map (Pair new_id) (handleNodeDragStop True node)) s)
           = remote_deps s \<and>
         createEdges (dependencies (perform_all (map (Pair new_id) (handleNodeDragStop True node)) s))
           = createEdges (dependencies s) \<and>
         remote_tasks (perform_all (map (Pair new_id) (handleNodeDragStop True node)) s)
           = map (\<lambda>u. if task_ident u = task_ident t
                       then u\<lparr>dag_position_x := None, dag_position_y := None\<rparr> else u)
               (remote_tasks s) \<and>
         t\<lparr>dag_position_x := None, dag_position_y := None\<rparr>
           \<in> set (poolTasks (remote_tasks
                (perform_all (map (Pair new_id) (handleNodeDragStop True node)) s))) \<and>
         task_ident t \<notin> task_ident ` set (dagTasks (remote_tasks
                (perform_all (map (Pair new_id) (handleNodeDragStop True node)) s)))"
proof -
  let ?s' = "perform_all (map (Pair new_id) (handleNodeDragStop True node)) s"
  let ?clear = "\<lambda>u. if task_ident u = task_ident t
                       then u\<lparr>dag_position_x := None, dag_position_y := None\<rparr> else u"
  have s': "?s' = s\<lparr>remote_tasks := map ?clear (remote_tasks s),
                    api_log := api_log s @ [Api_updateTask (task_ident t)
              \<lparr>upd_title = None, upd_description = None, upd_status = None,
               parent_workspace_id = None, image_ids = None,
               upd_dag_position_x = None, upd_dag_position_y = None,
               clear_dag_position = True\<rparr>]\<rparr>"
    using assms(2)
    by (simp add: handleNodeDragStop_def perform_all_def perform_def updateTask_mutate_def
        tasksApi_clear)
  from assms(1) have mem: "t \<in> set (remote_tasks s)"
    by (simp add: dagTasks_filter)
  have "?clear t \<in> set (map ?clear (remote_tasks s))"
    using mem by (rule imageI[of t "set (remote_tasks s)" ?clear, folded set_map])
  then have pooled: "t\<lparr>dag_position_x := None, dag_position_y := None\<rparr>
        \<in> set (poolTasks (map ?clear (remote_tasks s)))"
    by (simp add: poolTasks_filter)
  have notdag: "task_ident t \<notin> task_ident ` set (dagTasks (map ?clear (remote_tasks s)))"
    by (auto simp: dagTasks_filter split: if_splits)
  show ?thesis
    unfolding s' using pooled notdag by simp
qed

theorem clear_position_keeps_edges_witness:
  "map task_ident (dagTasks (remote_tasks
      \<lparr>remote_tasks =
         [\<lparr>task_ident = ''X'', title = ''x'', description = None, status = ''todo'',
           created_at = ''2025'', dag_position_x = Some 10, dag_position_y = Some 10\<rparr>,
          \<lparr>task_ident = ''Y'', title = ''y'', description = None, status = ''todo'',
           created_at = ''2026'', dag_position_x = Some 10, dag_position_y = Some 200\<rparr>],
       remote_deps = [\<lparr>task_id = ''Y'', depends_on_task_id = ''X'', dep_id = ''d1''\<rparr>],
       dependencies = [\<lparr>task_id = ''Y'', depends_on_task_id = ''X'', dep_id = ''d1''\<rparr>],
       alerts = [], api_log = []\<rparr>)) = [''X'', ''Y''] \<and>
   map task_ident (poolTasks (remote_tasks (perform_all
      (map (Pair [])
         (handleNodeDragStop True
            \<lparr>node_id = ''X'', node_type = ''task'', position = (10, 10), node_data = ()\<rparr>))
      \<lparr>remote_tasks =
         [\<lparr>task_ident = ''X'', title = ''x'', description = None, status = ''todo'',
           created_at = ''2025'', dag_position_x = Some 10, dag_position_y = Some 10\<rparr>,
          \<lparr>task_ident = ''Y'', title = ''y'', description = None, status = ''todo'',
           created_at = ''2026'', dag_position_x = Some 10, dag_position_y = Some 200\<rparr>],
       remote_deps = [\<lparr>task_id = ''Y'', depends_on_task_id = ''X'', dep_id = ''d1''\<rparr>],
       dependencies = [\<lparr>task_id = ''Y'', depends_on_task_id = ''X'', dep_id = ''d1''\<rparr>],
       alerts = [], api_log = []\<rparr>))) = [''X''] \<and>
   map (\<lambda>e. (source e, target e)) (createEdges (dependencies (perform_all
      (map (Pair [])
         (handleNodeDragStop True
            \<lparr>node_id = ''X'', node_type = ''task'', position = (10, 10), node_data = ()\<rparr>))
      \<lparr>remote_tasks =
         [\<lparr>task_ident = ''X'', title = ''x'', description = None, status = ''todo'',
           created_at = ''2025'', dag_position_x = Some 10, dag_position_y = Some 10\<rparr>,
          \<lparr>task_ident = ''Y'', title = ''y'', description = None, status = ''todo'',
           created_at = ''2026'', dag_position_x = Some 10, dag_position_y = Some 200\<rparr>],
       remote_deps = [\<lparr>task_id = ''Y'', depends_on_task_id = ''X'', dep_id = ''d1''\<rparr>],
       dependencies = [\<lparr>task_id = ''Y'', depends_on_task_id = ''X'', dep_id = ''d1''\<rparr>],
       alerts = [], api_log = []\<rparr>))) = [(''X'', ''Y'')]"
proof -
  let ?x = "\<lparr>task_ident = ''X'', title = ''x'', description = None, status = ''todo'',
           created_at = ''2025'', dag_position_x = Some 10, dag_position_y = Some 10\<rparr>"
  let ?y = "\<lparr>task_ident = ''Y'', title = ''y'', description = None, status = ''todo'',
           created_at = ''2026'', dag_position_x = Some 10, dag_position_y = Some 200\<rparr>"
  let ?s = "\<lparr>remote_tasks = [?x, ?y],
       remote_deps = [\<lparr>task_id = ''Y'', depends_on_task_id = ''X'', dep_id = ''d1''\<rparr>],
       dependencies = [\<lparr>task_id = ''Y'', depends_on_task_id = ''X'', dep_id = ''d1''\<rparr>],
       alerts = [], api_log = []\<rparr>"
  let ?n = "\<lparr>node_id = ''X'', node_type = ''task'', position = (10, 10), node_data = ()\<rparr>"
  have d: "dagTasks (remote_tasks ?s) = [?x, ?y]"
    by (simp add: dagTasks_def)
  then have h1: "?x \<in> set (dagTasks (remote_tasks ?s))"
    by simp
  have h2: "node_id ?n = task_ident ?x"
    by simp
  from clear_position_keeps_edges[OF h1 h2, of "[]"]
  have e: "createEdges (dependencies (perform_all (map (Pair []) (handleNodeDragStop True ?n)) ?s))
          = createEdges (dependencies ?s)"
    and t: "remote_tasks (perform_all (map (Pair []) (handleNodeDragStop True ?n)) ?s)
          = map (\<lambda>u. if task_ident u = task_ident ?x
                       then u\<lparr>dag_position_x := None, dag_position_y := None\<rparr> else u)
               (remote_tasks ?s)"
    by blast+
  have p: "map task_ident (poolTasks (remote_tasks
             (perform_all (map (Pair []) (handleNodeDragStop True ?n)) ?s))) = [''X'']"
    unfolding t by (simp add: poolTasks_def)
  have g: "map (\<lambda>e. (source e, target e)) (createEdges (dependencies
             (perform_all (map (Pair []) (handleNodeDragStop True ?n)) ?s))) = [(''X'', ''Y'')]"
    unfolding e by (simp add: createEdges_def)
  from d p g show ?thesis
    by simp
qed

text \<open>
  C9. A pooled task dropped on a node with another id: after the request that places it,
  the view requests one dependency, with the dropped task as \<open>task_id\<close> (the dependent) and
  the node under the pointer as \<open>depends_on_task_id\<close> (the prerequisite).
\<close>

theorem handleDrop_direction:
  assumes "taskId \<noteq> []"
    and "find (\<lambda>t. task_ident t = taskId) (poolTasks tasks) = Some draggedTask"
    and "nodeId \<noteq> []"
    and "nodeId \<noteq> taskId"
  shows "handleDrop taskId (poolTasks tasks) flow_position (Some nodeId) =
           [UpdateTask_mutate taskId
              \<lparr>upd_title = None, upd_description = None, upd_status = None,
               parent_workspace_id = None, image_ids = None,
               upd_dag_position_x = Some (fst flow_position),
               upd_dag_position_y = Some (snd flow_position),
               clear_dag_position = False\<rparr>,
            CreateDependency_mutate \<lparr>task_id = taskId, depends_on_task_id = nodeId\<rparr>]"
  using assms by (simp add: handleDrop_def truthy_def)

theorem handleDrop_direction_witness:
  "find (\<lambda>t. task_ident t = ''Y'') (poolTasks
     [\<lparr>task_ident = ''X'', title = ''x'', description = None, status = ''todo'',
       created_at = ''2025'', dag_position_x = Some 10, dag_position_y = Some 10\<rparr>,
      \<lparr>task_ident = ''Y'', title = ''y'', description = None, status = ''todo'',
       created_at = ''2026'', dag_position_x = None, dag_position_y = None\<rparr>])
     = Some \<lparr>task_ident = ''Y'', title = ''y'', description = None, status = ''todo'',
       created_at = ''2026'', dag_position_x = None, dag_position_y = None\<rparr> \<and>
   handleDrop ''Y'' (poolTasks
     [\<lparr>task_ident = ''X'', title = ''x'', description = None, status = ''todo'',
       created_at = ''2025'', dag_position_x = Some 10, dag_position_y = Some 10\<rparr>,
      \<lparr>task_ident = ''Y'', title = ''y'', description = None, status = ''todo'',
       created_at = ''2026'', dag_position_x = None, dag_position_y = None\<rparr>]) (30, 40) (Some ''X'')
     = [UpdateTask_mutate ''Y''
          \<lparr>upd_title = None, upd_description = None, upd_status = None,
           parent_workspace_id = None, image_ids = None,
           upd_dag_position_x = Some 30, upd_dag_position_y = Some 40,
           clear_dag_position = False\<rparr>,
        CreateDependency_mutate \<lparr>task_id = ''Y'', depends_on_task_id = ''X''\<rparr>]"
proof -
  let ?tasks = "[\<lparr>task_ident = ''X'', title = ''x'', description = None, status = ''todo'',
       created_at = ''2025'', dag_position_x = Some 10, dag_position_y = Some 10\<rparr>,
      \<lparr>task_ident = ''Y'', title = ''y'', description = None, status = ''todo'',
       created_at = ''2026'', dag_position_x = None, dag_position_y = None\<rparr>]"
  let ?y = "\<lparr>task_ident = ''Y'', title = ''y'', description = None, status = ''todo'',
       created_at = ''2026'', dag_position_x = None, dag_position_y = None\<rparr>"
  have h1: "''Y'' \<noteq> []" by simp
  have h2: "find (\<lambda>t. task_ident t = ''Y'') (poolTasks ?tasks) = Some ?y"
    by (simp add: poolTasks_def)
  have h3: "''X'' \<noteq> []" by simp
  have h4: "''X'' \<noteq> ''Y''" by simp
  from handleDrop_direction[OF h1 h2 h3 h4, of "(30, 40)"] h2 show ?thesis
    by simp
qed

section \<open>Properties of the layout\<close>

lemma fold_setNode:
  "fold (\<lambda>node. setNode (node_id node) label) nodes g
     = g\<lparr>setNode_calls := setNode_calls g @ map (\<lambda>node. (node_id node, label)) nodes\<rparr>"
  by (induction nodes arbitrary: g) (simp_all add: setNode_def)

lemma fold_setEdge:
  "fold (\<lambda>edge. setEdge (source edge) (target edge)) edges g
     = g\<lparr>setEdge_calls := setEdge_calls g @ map (\<lambda>edge. (source edge, target edge)) edges\<rparr>"
  by (induction edges arbitrary: g) (simp_all add: setEdge_def)

lemma buildDagreGraph_ids:
  assumes "map node_id nodes = map node_id nodes'"
  shows "buildDagreGraph nodes edges options = buildDagreGraph nodes' edges options"
proof -
  have "map (\<lambda>node. (node_id node, label)) nodes = map (\<lambda>i. (i, label)) (map node_id nodes)"
    for label :: NodeLabel
    by (simp add: comp_def)
  moreover have "map (\<lambda>node. (node_id node, label)) nodes' = map (\<lambda>i. (i, label)) (map node_id nodes')"
    for label :: NodeLabel
    by (simp add: comp_def)
  ultimately have "map (\<lambda>node. (node_id node, label)) nodes
                     = map (\<lambda>node. (node_id node, label)) nodes'"
    for label :: NodeLabel
    using assms by simp
  then show ?thesis
    by (simp add: buildDagreGraph_def Let_def fold_setNode fold_setEdge)
qed

lemma layouted_ids:
  "map node_id (getLayoutedElements layout nodes edges options) = map node_id nodes"
  by (simp add: getLayoutedElements_def Let_def comp_def split: option.split prod.split)

text \<open>
  C6. The result of the layout has the nodes of the input, in the input's order: the same
  ids, types and payloads, one node per input node; only positions can differ.
\<close>

theorem layout_keeps_node_set:
  "map node_id (getLayoutedElements layout nodes edges options) = map node_id nodes \<and>
   map node_type (getLayoutedElements layout nodes edges options) = map node_type nodes \<and>
   map node_data (getLayoutedElements layout nodes edges options) = map node_data nodes \<and>
   length (getLayoutedElements layout nodes edges options) = length nodes"
  by (simp add: getLayoutedElements_def Let_def comp_def split: option.split prod.split)

text \<open>
  C5. The layout is a function of the library's layout, the nodes, the edges and the
  options, and laying out its own result again, with the same edges and options, changes
  nothing.
\<close>

theorem relayout_idempotent:
  "getLayoutedElements layout (getLayoutedElements layout nodes edges options) edges options
     = getLayoutedElements layout nodes edges options"
proof -
  let ?out = "getLayoutedElements layout nodes edges options"
  have g: "buildDagreGraph ?out edges options = buildDagreGraph nodes edges options"
    by (rule buildDagreGraph_ids) (rule layouted_ids)
  show ?thesis
    unfolding getLayoutedElements_def[of layout ?out] g
    by (simp add: getLayoutedElements_def Let_def split: option.split prod.split)
qed

lemma buildDagreGraph_calls:
  "buildDagreGraph nodes edges options
     = \<lparr>graph_label =
          \<lparr>rankdir = (case direction options of None \<Rightarrow> TB | Some d \<Rightarrow> d),
           nodesep = (case nodeSpacing options of None \<Rightarrow> 50 | Some n \<Rightarrow> n),
           ranksep = (case rankSpacing options of None \<Rightarrow> 100 | Some r \<Rightarrow> r),
           marginx = 50, marginy = 50\<rparr>,
        setNode_calls = map (\<lambda>n. (node_id n, \<lparr>width = 280, height = 100\<rparr>)) nodes,
        setEdge_calls = map (\<lambda>e. (source e, target e)) edges\<rparr>"
  by (simp add: buildDagreGraph_def Let_def fold_setNode fold_setEdge
      NODE_WIDTH_def NODE_HEIGHT_def)

text \<open>
  C4, as amended. For every input, with or without a cycle, the layout has no failure
  outcome and makes no check of its own. The library is given the graph label of the
  options (defaults \<open>TB\<close>, 50 and 100; margins 50), one node of 280 by 100 for each input
  node, in order, and one edge from source to target for each input edge, in order,
  nothing left out or added. The result has the ids of the input, in order; each node has
  the centre that the library reports for its id, moved by half the node's width and
  height, and keeps its previous position only where the library reports nothing.
\<close>

theorem layout_positions_from_library:
  "map position (getLayoutedElements layout nodes edges options)
     = map (\<lambda>node. case layout
                      \<lparr>graph_label =
                         \<lparr>rankdir = (case direction options of None \<Rightarrow> TB | Some d \<Rightarrow> d),
                          nodesep = (case nodeSpacing options of None \<Rightarrow> 50 | Some n \<Rightarrow> n),
                          ranksep = (case rankSpacing options of None \<Rightarrow> 100 | Some r \<Rightarrow> r),
                          marginx = 50, marginy = 50\<rparr>,
                       setNode_calls =
                         map (\<lambda>n. (node_id n, \<lparr>width = 280, height = 100\<rparr>)) nodes,
                       setEdge_calls = map (\<lambda>e. (source e, target e)) edges\<rparr> (node_id node) of
                     None \<Rightarrow> position node
                   | Some (cx, cy) \<Rightarrow> (cx - 140, cy - 50)) nodes \<and>
   map node_id (getLayoutedElements layout nodes edges options) = map node_id nodes"
  by (simp add: getLayoutedElements_def buildDagreGraph_calls Let_def comp_def
      NODE_WIDTH_def NODE_HEIGHT_def split: option.split prod.split)

text \<open>
  An instance on a cycle: the tasks \<open>A\<close> and \<open>C\<close> depend on each other, laid out with the
  default options. The library's answer for this graph is the first registered node above
  the second, with the centres \<open>(190, 100)\<close> and \<open>(190, 300)\<close>.
\<close>

theorem layout_positions_from_library_witness:
  "map position (getLayoutedElements (\<lambda>g. map_of (zip (map fst (setNode_calls g)) [(190, 100), (190, 300)]))
      [\<lparr>node_id = ''A'', node_type = ''task'', position = (0, 0), node_data = ()\<rparr>,
       \<lparr>node_id = ''C'', node_type = ''task'', position = (7, 8), node_data = ()\<rparr>]
      (createEdges
        [\<lparr>task_id = ''C'', depends_on_task_id = ''A'', dep_id = ''d1''\<rparr>,
         \<lparr>task_id = ''A'', depends_on_task_id = ''C'', dep_id = ''d2''\<rparr>])
      \<lparr>direction = None, nodeSpacing = None, rankSpacing = None\<rparr>)
     = [(50, 50), (50, 250)] \<and>
   map node_id (getLayoutedElements (\<lambda>g. map_of (zip (map fst (setNode_calls g)) [(190, 100), (190, 300)]))
      [\<lparr>node_id = ''A'', node_type = ''task'', position = (0, 0), node_data = ()\<rparr>,
       \<lparr>node_id = ''C'', node_type = ''task'', position = (7, 8), node_data = ()\<rparr>]
      (createEdges
        [\<lparr>task_id = ''C'', depends_on_task_id = ''A'', dep_id = ''d1''\<rparr>,
         \<lparr>task_id = ''A'', depends_on_task_id = ''C'', dep_id = ''d2''\<rparr>])
      \<lparr>direction = None, nodeSpacing = None, rankSpacing = None\<rparr>)
     = [''A'', ''C'']"
  using layout_positions_from_library
    [of "(\<lambda>g. map_of (zip (map fst (setNode_calls g)) [(190, 100), (190, 300)]))"
      "[\<lparr>node_id = ''A'', node_type = ''task'', position = (0, 0), node_data = ()\<rparr>,
       \<lparr>node_id = ''C'', node_type = ''task'', position = (7, 8), node_data = ()\<rparr>]"
      "(createEdges
        [\<lparr>task_id = ''C'', depends_on_task_id = ''A'', dep_id = ''d1''\<rparr>,
         \<lparr>task_id = ''A'', depends_on_task_id = ''C'', dep_id = ''d2''\<rparr>])"
      "\<lparr>direction = None, nodeSpacing = None, rankSpacing = None\<rparr>"]
  by simp

lemma two_cycle: "\<not> acyclic (edge_graph (createEdges
        [\<lparr>task_id = ''B'', depends_on_task_id = ''A'', dep_id = ''d1''\<rparr>,
         \<lparr>task_id = ''A'', depends_on_task_id = ''B'', dep_id = ''d2''\<rparr>]))"
proof -
  have "(''A'', ''A'') \<in> {(''A'', ''B''), (''B'', ''A'')}\<^sup>+"
    by (rule trancl_trans[of _ "''B''"]) auto
  then show ?thesis
    by (auto simp: acyclic_def edge_graph_def createEdges_def)
qed

text \<open>
  C4 as stated fails: the tasks \<open>A\<close> and \<open>B\<close> depend on each other and both nodes are at
  \<open>(0, 0)\<close>. The library's answer for this graph is the first registered node above the
  second, with the centres \<open>(190, 100)\<close> and \<open>(190, 300)\<close>; the layout returns the
  positions \<open>(50, 50)\<close> and \<open>(50, 250)\<close>, not the previous ones.
\<close>

theorem layout_of_cycle_counterexample:
  "\<not> acyclic (edge_graph (createEdges
        [\<lparr>task_id = ''B'', depends_on_task_id = ''A'', dep_id = ''d1''\<rparr>,
         \<lparr>task_id = ''A'', depends_on_task_id = ''B'', dep_id = ''d2''\<rparr>])) \<and>
   map position (getLayoutedElements (\<lambda>g. map_of (zip (map fst (setNode_calls g)) [(190, 100), (190, 300)]))
      [\<lparr>node_id = ''A'', node_type = ''task'', position = (0, 0), node_data = ()\<rparr>,
       \<lparr>node_id = ''B'', node_type = ''task'', position = (0, 0), node_data = ()\<rparr>]
      (createEdges
        [\<lparr>task_id = ''B'', depends_on_task_id = ''A'', dep_id = ''d1''\<rparr>,
         \<lparr>task_id = ''A'', depends_on_task_id = ''B'', dep_id = ''d2''\<rparr>])
      \<lparr>direction = Some TB, nodeSpacing = Some 50, rankSpacing = Some 100\<rparr>)
     = [(50, 50), (50, 250)] \<and>
   map position (getLayoutedElements (\<lambda>g. map_of (zip (map fst (setNode_calls g)) [(190, 100), (190, 300)]))
      [\<lparr>node_id = ''A'', node_type = ''task'', position = (0, 0), node_data = ()\<rparr>,
       \<lparr>node_id = ''B'', node_type = ''task'', position = (0, 0), node_data = ()\<rparr>]
      (createEdges
        [\<lparr>task_id = ''B'', depends_on_task_id = ''A'', dep_id = ''d1''\<rparr>,
         \<lparr>task_id = ''A'', depends_on_task_id = ''B'', dep_id = ''d2''\<rparr>])
      \<lparr>direction = Some TB, nodeSpacing = Some 50, rankSpacing = Some 100\<rparr>)
     \<noteq> map position
      [\<lparr>node_id = ''A'', node_type = ''task'', position = (0, 0), node_data = ()\<rparr>,
       \<lparr>node_id = ''B'', node_type = ''task'', position = (0, 0), node_data = ()\<rparr>]"
  using two_cycle
  by (simp add: getLayoutedElements_def buildDagreGraph_calls Let_def
      NODE_WIDTH_def NODE_HEIGHT_def)

end
